theory Spec2Isabelle
  imports Main "HOL-Library.Sublist"
begin

section \<open>Streams, files and the observable world\<close>

text \<open>
  The program of \<^verbatim>\<open>03.cpp\<close> writes to \<^verbatim>\<open>std::ostream\<close> objects and, through
  \<^verbatim>\<open>std::ofstream\<close> objects, to files. Stream objects are reached through raw
  pointers, so they live in stores indexed by address; two sinks holding the same
  pointer share the stream.

  A plain output stream records the characters inserted so far and whether its state is
  no longer good (\<^verbatim>\<open>failbit\<close> or \<^verbatim>\<open>badbit\<close>). A file stream records the path
  its file buffer is open on (\<open>None\<close> when closed) and the same state flag. No stream
  has an exception mask set in the program, so a failing stream operation never throws.
\<close>

type_synonym path = string
type_synonym addr = nat

record ostream =
  written :: string
  os_fail :: bool

record ofstream =
  ofs_path :: "path option"
  ofs_fail :: bool

text \<open>
  \<^verbatim>\<open>class LogCommand\<close> with its two subclasses. The fields of a sink never change
  after construction, so a \<^verbatim>\<open>LogCommand*\<close> is modelled by the sink itself; what a sink
  points to (the stream) stays an address.
\<close>

datatype LogCommand =
    FileLog path addr      \<comment> \<open>\<^verbatim>\<open>file_path\<close>, \<^verbatim>\<open>f_ostream\<close>\<close>
  | ConsoleLog addr        \<comment> \<open>\<^verbatim>\<open>p_ostream\<close>\<close>

text \<open>
  The world: the stream objects, the contents of the files (\<open>None\<close>: no such file),
  and which paths the operating system lets the program open for appending.
  \<open>print_calls\<close> is a history variable: every call of \<^verbatim>\<open>LogCommand::print\<close> with its
  receiver and argument, oldest first. The program never reads it.
\<close>

record world =
  ostreams :: "addr \<Rightarrow> ostream"
  ofstreams :: "addr \<Rightarrow> ofstream"
  files :: "path \<Rightarrow> string option"
  can_open :: "path \<Rightarrow> bool"
  print_calls :: "(LogCommand \<times> string) list"

definition std_cout :: addr where
  \<comment> \<open>the address of \<^verbatim>\<open>std::cout\<close> in the store of plain output streams\<close>
  "std_cout = 0"

definition endl :: string where
  \<comment> \<open>\<^verbatim>\<open>std::endl\<close> inserts a newline and flushes\<close>
  "endl = [CHR 0x0A]"

definition put_str :: "string \<Rightarrow> ostream \<Rightarrow> ostream" where
  \<comment> \<open>\<^verbatim>\<open>os << s\<close> on a plain stream: nothing is inserted once the stream is not good\<close>
  "put_str s os = (if os_fail os then os else os\<lparr>written := written os @ s\<rparr>)"

definition ostream_line :: "addr \<Rightarrow> string \<Rightarrow> world \<Rightarrow> world" where
  \<comment> \<open>\<^verbatim>\<open>*p << s << std::endl\<close> for the plain stream at address \<open>p\<close>\<close>
  "ostream_line p s w =
     w\<lparr>ostreams := (ostreams w)(p := put_str endl (put_str s (ostreams w p)))\<rparr>"

definition file_text :: "world \<Rightarrow> path \<Rightarrow> string" where
  "file_text w p = (case files w p of None \<Rightarrow> [] | Some c \<Rightarrow> c)"

definition ofstream_open :: "addr \<Rightarrow> path \<Rightarrow> world \<Rightarrow> world" where
  \<comment> \<open>\<^verbatim>\<open>f->open(p, std::ios::app)\<close>: the file buffer refuses when it is already open;
      otherwise the file is opened for appending (created when missing). Success clears
      the stream state, failure sets \<^verbatim>\<open>failbit\<close>.\<close>
  "ofstream_open f p w =
     (if ofs_path (ofstreams w f) = None \<and> can_open w p
      then w\<lparr>ofstreams := (ofstreams w)(f := \<lparr>ofs_path = Some p, ofs_fail = False\<rparr>),
             files := (files w)(p := Some (file_text w p))\<rparr>
      else w\<lparr>ofstreams := (ofstreams w)(f := (ofstreams w f)\<lparr>ofs_fail := True\<rparr>)\<rparr>)"

definition ofstream_is_open :: "addr \<Rightarrow> world \<Rightarrow> bool" where
  "ofstream_is_open f w = (ofs_path (ofstreams w f) \<noteq> None)"

definition ofstream_put :: "addr \<Rightarrow> string \<Rightarrow> world \<Rightarrow> world" where
  \<comment> \<open>\<^verbatim>\<open>*f << s\<close> on a file stream: nothing is written once the stream is not good;
      writing through a closed file buffer fails\<close>
  "ofstream_put f s w =
     (if ofs_fail (ofstreams w f) then w
      else (case ofs_path (ofstreams w f) of
              None \<Rightarrow> w\<lparr>ofstreams := (ofstreams w)(f := (ofstreams w f)\<lparr>ofs_fail := True\<rparr>)\<rparr>
            | Some p \<Rightarrow> w\<lparr>files := (files w)(p := Some (file_text w p @ s))\<rparr>))"

definition ofstream_close :: "addr \<Rightarrow> world \<Rightarrow> world" where
  \<comment> \<open>\<^verbatim>\<open>f->close()\<close>: closing a stream that is not open sets \<^verbatim>\<open>failbit\<close>\<close>
  "ofstream_close f w =
     (case ofs_path (ofstreams w f) of
        None \<Rightarrow> w\<lparr>ofstreams := (ofstreams w)(f := (ofstreams w f)\<lparr>ofs_fail := True\<rparr>)\<rparr>
      | Some p \<Rightarrow> w\<lparr>ofstreams := (ofstreams w)(f := (ofstreams w f)\<lparr>ofs_path := None\<rparr>)\<rparr>)"

section \<open>Log sinks\<close>

definition logged :: "LogCommand \<Rightarrow> string \<Rightarrow> world \<Rightarrow> world" where
  \<comment> \<open>the history variable records the call\<close>
  "logged c s w = w\<lparr>print_calls := print_calls w @ [(c, s)]\<rparr>"

fun print :: "LogCommand \<Rightarrow> string \<Rightarrow> world \<Rightarrow> world" where
  "print (FileLog file_path f_ostream) message w =
     logged (FileLog file_path f_ostream) message
       (let w1 = ofstream_open f_ostream file_path w
        in if ofstream_is_open f_ostream w1
           then ofstream_put f_ostream endl (ofstream_put f_ostream message w1)
           else w1)"
| "print (ConsoleLog p_ostream) message w =
     logged (ConsoleLog p_ostream) message (ostream_line p_ostream message w)"

fun destroy :: "LogCommand \<Rightarrow> world \<Rightarrow> world" where
  \<comment> \<open>the destructors \<^verbatim>\<open>~FileLog\<close> and \<^verbatim>\<open>~ConsoleLog\<close>\<close>
  "destroy (FileLog file_path f_ostream) w = ofstream_close f_ostream w"
| "destroy (ConsoleLog p_ostream) w = w"

section \<open>Log messages\<close>

datatype exception = runtime_error string

fun what :: "exception \<Rightarrow> string" where
  "what (runtime_error s) = s"

datatype Type = tWarning | tError | tFatalError | tUnknownMessage

datatype LogMessage =
    WarningLogMessage LogCommand
  | ErrorLogMessage LogCommand
  | FatalErrorLogMessage
  | UnknownMessageLogMessage

fun type :: "LogMessage \<Rightarrow> Type" where
  "type (WarningLogMessage file) = tWarning"
| "type (ErrorLogMessage cons) = tError"
| "type FatalErrorLogMessage = tFatalError"
| "type UnknownMessageLogMessage = tUnknownMessage"

text \<open>
  \<^verbatim>\<open>message()\<close> either returns its text (\<open>Inr\<close>) or throws (\<open>Inl\<close>); the world it leaves
  behind is returned in both cases.
\<close>

fun message :: "LogMessage \<Rightarrow> world \<Rightarrow> (exception + string) \<times> world" where
  "message (WarningLogMessage file) w = (Inr ''warning'', print file ''warning'' w)"
| "message (ErrorLogMessage cons) w = (Inr ''Error'', print cons ''Error'' w)"
| "message FatalErrorLogMessage w = (Inl (runtime_error ''FatalError!''), w)"
| "message UnknownMessageLogMessage w = (Inl (runtime_error ''UnknownMessage!''), w)"

section \<open>The handler chain\<close>

text \<open>
  A handler object is its dynamic class together with the one field of the base class,
  the owning pointer \<^verbatim>\<open>next\<close> (\<open>None\<close> for \<^verbatim>\<open>nullptr\<close>). An owning pointer set only
  by the constructor makes every chain a finite list of links.

  \<^verbatim>\<open>receiveLog\<close> and \<^verbatim>\<open>handleLog\<close> are not \<^verbatim>\<open>const\<close>: each takes the receiver and
  hands it back as the call leaves it, next to the outcome and the world.
\<close>

datatype handler_class =
  WarningLogHandler | ErrorLogHandler | FatalErrorLogHandler | UnknownMessageLogHandler

datatype LogHandler =
  LogHandler (dyn_class: handler_class) (next_h: "LogHandler option")

fun handleLog ::
  "LogHandler \<Rightarrow> LogMessage \<Rightarrow> world \<Rightarrow> (exception + bool) \<times> LogHandler \<times> world" where
  "handleLog (LogHandler WarningLogHandler nxt) logmsg w =
     (if type logmsg \<noteq> tWarning then (Inr False, LogHandler WarningLogHandler nxt, w)
      else (case message logmsg w of
              (Inl e, w') \<Rightarrow> (Inl e, LogHandler WarningLogHandler nxt, w')
            | (Inr s, w') \<Rightarrow> (Inr True, LogHandler WarningLogHandler nxt, w')))"
| "handleLog (LogHandler ErrorLogHandler nxt) logmsg w =
     (if type logmsg \<noteq> tError then (Inr False, LogHandler ErrorLogHandler nxt, w)
      else (case message logmsg w of
              (Inl e, w') \<Rightarrow> (Inl e, LogHandler ErrorLogHandler nxt, w')
            | (Inr s, w') \<Rightarrow> (Inr True, LogHandler ErrorLogHandler nxt, w')))"
| "handleLog (LogHandler FatalErrorLogHandler nxt) logmsg w =
     (if type logmsg \<noteq> tFatalError then (Inr False, LogHandler FatalErrorLogHandler nxt, w)
      else (case message logmsg w of
              (Inl e, w') \<Rightarrow> (Inl e, LogHandler FatalErrorLogHandler nxt, w')
            | (Inr s, w') \<Rightarrow> (Inr True, LogHandler FatalErrorLogHandler nxt, w')))"
| "handleLog (LogHandler UnknownMessageLogHandler nxt) logmsg w =
     (if type logmsg \<noteq> tUnknownMessage
      then (Inr False, LogHandler UnknownMessageLogHandler nxt, w)
      else (case message logmsg w of
              (Inl e, w') \<Rightarrow> (Inl e, LogHandler UnknownMessageLogHandler nxt, w')
            | (Inr s, w') \<Rightarrow> (Inr True, LogHandler UnknownMessageLogHandler nxt, w')))"

definition unhandled :: exception where
  "unhandled = runtime_error ''Error: Log message should be handled!''"

function receiveLog ::
  "LogHandler \<Rightarrow> LogMessage \<Rightarrow> world \<Rightarrow> (exception + unit) \<times> LogHandler \<times> world" where
  "receiveLog this logmsg w =
     (case handleLog this logmsg w of
        (Inl e, this', w') \<Rightarrow> (Inl e, this', w')
      | (Inr True, this', w') \<Rightarrow> (Inr (), this', w')
      | (Inr False, this', w') \<Rightarrow>
          (case next_h this' of
             None \<Rightarrow> (Inl unhandled, this', w')
           | Some n \<Rightarrow>
               (case receiveLog n logmsg w' of
                  (r, n', w'') \<Rightarrow> (r, LogHandler (dyn_class this') (Some n'), w''))))"
  by pat_completeness auto
termination
proof (relation "measure (\<lambda>(this, logmsg, w). size this)")
  show "wf (measure (\<lambda>(this, logmsg, w). size this))"
    by simp
next
  fix this :: LogHandler and logmsg w x1 x2 x1a x2a x2b n
  assume "(x1, x2) = handleLog this logmsg w" "(x1a, x2a) = x2" "next_h x1a = Some n"
  then show "((n, logmsg, x2a), this, logmsg, w) \<in> measure (\<lambda>(this, logmsg, w). size this)"
    by (cases this; cases "dyn_class this"; cases x1a)
       (auto split: if_splits prod.splits sum.splits)
qed

text \<open>
  Specification vocabulary for the chain. \<open>accepts\<close> is the severity each override of
  \<^verbatim>\<open>handleLog\<close> compares against; \<open>links\<close> lists a chain from its outermost link to
  its last.

  \<open>receiveLog_traced\<close> is \<^verbatim>\<open>receiveLog\<close> run with a call history: one recursion
  computes the outcome of the call and, next to it, the links whose \<^verbatim>\<open>receiveLog\<close>
  body ran, in call order. \<open>visited\<close> is that history and \<open>forwards\<close> the number of
  delegations \<^verbatim>\<open>next->receiveLog(logmsg)\<close> in it. That the outcome computed along the
  history is the outcome of \<open>receiveLog\<close> is lemma \<open>receiveLog_traced_outcome\<close>.
\<close>

fun accepts :: "handler_class \<Rightarrow> Type" where
  "accepts WarningLogHandler = tWarning"
| "accepts ErrorLogHandler = tError"
| "accepts FatalErrorLogHandler = tFatalError"
| "accepts UnknownMessageLogHandler = tUnknownMessage"

fun links :: "LogHandler \<Rightarrow> LogHandler list" where
  "links (LogHandler c None) = [LogHandler c None]"
| "links (LogHandler c (Some n)) = LogHandler c (Some n) # links n"

definition severities :: "LogHandler \<Rightarrow> Type list" where
  "severities h = map (\<lambda>l. accepts (dyn_class l)) (links h)"

function receiveLog_traced ::
  "LogHandler \<Rightarrow> LogMessage \<Rightarrow> world \<Rightarrow>
     ((exception + unit) \<times> LogHandler \<times> world) \<times> LogHandler list" where
  "receiveLog_traced this logmsg w =
     (case handleLog this logmsg w of
        (Inl e, this', w') \<Rightarrow> ((Inl e, this', w'), [this])
      | (Inr True, this', w') \<Rightarrow> ((Inr (), this', w'), [this])
      | (Inr False, this', w') \<Rightarrow>
          (case next_h this' of
             None \<Rightarrow> ((Inl unhandled, this', w'), [this])
           | Some n \<Rightarrow>
               (case receiveLog_traced n logmsg w' of
                  ((r, n', w''), entered) \<Rightarrow>
                    ((r, LogHandler (dyn_class this') (Some n'), w''), this # entered))))"
  by pat_completeness auto
termination
proof (relation "measure (\<lambda>(this, logmsg, w). size this)")
  show "wf (measure (\<lambda>(this, logmsg, w). size this))"
    by simp
next
  fix this :: LogHandler and logmsg w x1 x2 x1a x2a x2b n
  assume "(x1, x2) = handleLog this logmsg w" "(x1a, x2a) = x2" "next_h x1a = Some n"
  then show "((n, logmsg, x2a), this, logmsg, w) \<in> measure (\<lambda>(this, logmsg, w). size this)"
    by (cases this; cases "dyn_class this"; cases x1a)
       (auto split: if_splits prod.splits sum.splits)
qed

definition visited :: "LogHandler \<Rightarrow> LogMessage \<Rightarrow> world \<Rightarrow> LogHandler list" where
  "visited h logmsg w = snd (receiveLog_traced h logmsg w)"

definition forwards :: "LogHandler \<Rightarrow> LogMessage \<Rightarrow> world \<Rightarrow> nat" where
  "forwards h logmsg w = length (visited h logmsg w) - 1"

section \<open>The driver\<close>

text \<open>
  The \<^verbatim>\<open>try\<close> block of \<^verbatim>\<open>main\<close> routes its messages one after the other through the
  same outermost link; the first exception leaves the block. \<open>try_block\<close> is that block
  for any chain and any sequence of messages, \<open>driver\<close> adds the \<^verbatim>\<open>catch\<close> clause,
  which prints \<^verbatim>\<open>e.what()\<close> on \<^verbatim>\<open>std::cout\<close>.
\<close>

fun try_block ::
  "LogHandler \<Rightarrow> LogMessage list \<Rightarrow> world \<Rightarrow> (exception + unit) \<times> LogHandler \<times> world" where
  "try_block h [] w = (Inr (), h, w)"
| "try_block h (m # ms) w =
     (case receiveLog h m w of
        (Inl e, h', w') \<Rightarrow> (Inl e, h', w')
      | (Inr u, h', w') \<Rightarrow> try_block h' ms w')"

definition driver :: "LogHandler \<Rightarrow> LogMessage list \<Rightarrow> world \<Rightarrow> LogHandler \<times> world" where
  "driver h ms w =
     (case try_block h ms w of
        (Inl e, h', w') \<Rightarrow> (h', ostream_line std_cout (what e) w')
      | (Inr u, h', w') \<Rightarrow> (h', w'))"

definition warn_handler :: LogHandler where
  "warn_handler = LogHandler WarningLogHandler None"

definition err_handler :: LogHandler where
  "err_handler = LogHandler ErrorLogHandler (Some warn_handler)"

definition fatalerr_handler :: LogHandler where
  "fatalerr_handler = LogHandler FatalErrorLogHandler (Some err_handler)"

definition unknowmes_handler :: LogHandler where
  "unknowmes_handler = LogHandler UnknownMessageLogHandler (Some fatalerr_handler)"

definition ofs :: addr where
  \<comment> \<open>the address of the local \<^verbatim>\<open>std::ofstream ofs\<close> of \<^verbatim>\<open>main\<close>\<close>
  "ofs = 0"

definition cl :: LogCommand where
  "cl = ConsoleLog std_cout"

definition fl :: LogCommand where
  "fl = FileLog ''file_path'' ofs"

definition enter_main :: "world \<Rightarrow> world" where
  \<comment> \<open>the declarations of lines 178 to 180: \<^verbatim>\<open>ofs\<close> is default-constructed, closed and good\<close>
  "enter_main w = w\<lparr>ofstreams := (ofstreams w)(ofs := \<lparr>ofs_path = None, ofs_fail = False\<rparr>)\<rparr>"

definition main :: "world \<Rightarrow> int \<times> world" where
  \<comment> \<open>the exit code and the world after the locals are destroyed\<close>
  "main w =
     (case driver unknowmes_handler
             [WarningLogMessage cl, ErrorLogMessage fl, UnknownMessageLogMessage]
             (enter_main w) of
        (h, w') \<Rightarrow> (0, destroy cl (destroy fl w')))"

definition start_world :: world where
  \<comment> \<open>a world at program start: \<^verbatim>\<open>std::cout\<close> good and empty, no file yet, every path
      may be opened\<close>
  "start_world =
     \<lparr>ostreams = (\<lambda>a. \<lparr>written = [], os_fail = False\<rparr>),
      ofstreams = (\<lambda>a. \<lparr>ofs_path = None, ofs_fail = False\<rparr>),
      files = (\<lambda>p. None),
      can_open = (\<lambda>p. True),
      print_calls = []\<rparr>"


section \<open>Basic facts\<close>

lemma handleLog_accepts:
  "handleLog h m w =
     (if type m \<noteq> accepts (dyn_class h) then (Inr False, h, w)
      else (case message m w of
              (Inl e, w') \<Rightarrow> (Inl e, h, w')
            | (Inr s, w') \<Rightarrow> (Inr True, h, w')))"
proof (cases h)
  case (LogHandler c nxt)
  then show ?thesis
    by (cases c) (simp_all split: prod.splits sum.splits)
qed

lemma receiveLog_match:
  "type m = accepts (dyn_class h) \<Longrightarrow>
   receiveLog h m w =
     (case message m w of (Inl e, w') \<Rightarrow> (Inl e, h, w') | (Inr s, w') \<Rightarrow> (Inr (), h, w'))"
  by (simp add: handleLog_accepts split: prod.splits sum.splits)

lemma receiveLog_last:
  "type m \<noteq> accepts (dyn_class h) \<Longrightarrow> next_h h = None \<Longrightarrow>
   receiveLog h m w = (Inl unhandled, h, w)"
  by (simp add: handleLog_accepts)

lemma receiveLog_forward:
  "type m \<noteq> accepts (dyn_class h) \<Longrightarrow> next_h h = Some n \<Longrightarrow>
   receiveLog h m w =
     (case receiveLog n m w of (r, n', w') \<Rightarrow> (r, LogHandler (dyn_class h) (Some n'), w'))"
  by (simp add: handleLog_accepts)

declare receiveLog.simps [simp del] receiveLog_traced.simps [simp del]

lemma receiveLog_this: "fst (snd (receiveLog h m w)) = h"
proof (induction h arbitrary: w rule: links.induct)
  case (1 c)
  show ?case
    by (cases "type m = accepts c")
       (simp_all add: receiveLog_match receiveLog_last split: prod.splits sum.splits)
next
  case (2 c n)
  show ?case
  proof (cases "type m = accepts c")
    case True
    then show ?thesis
      by (simp add: receiveLog_match split: prod.splits sum.splits)
  next
    case False
    then show ?thesis
      using "2.IH" [of w]
      by (auto simp: receiveLog_forward split: prod.splits)
  qed
qed

lemma receiveLog_step:
  "type m \<noteq> accepts (dyn_class h) \<Longrightarrow> next_h h = Some n \<Longrightarrow>
   receiveLog h m w = (fst (receiveLog n m w), h, snd (snd (receiveLog n m w)))"
proof -
  assume no_match: "type m \<noteq> accepts (dyn_class h)" and nxt: "next_h h = Some n"
  obtain r n' w' where run: "receiveLog n m w = (r, n', w')"
    by (cases "receiveLog n m w") auto
  have "n' = n"
    using receiveLog_this [of n m w] run by simp
  moreover have "LogHandler (dyn_class h) (Some n) = h"
    using nxt by (cases h) simp
  ultimately show ?thesis
    using no_match nxt run by (simp add: receiveLog_forward)
qed

lemma receiveLog_traced_match:
  "type m = accepts (dyn_class h) \<Longrightarrow>
   receiveLog_traced h m w =
     (case message m w of
        (Inl e, w') \<Rightarrow> ((Inl e, h, w'), [h])
      | (Inr s, w') \<Rightarrow> ((Inr (), h, w'), [h]))"
  by (simp add: receiveLog_traced.simps handleLog_accepts split: prod.splits sum.splits)

lemma receiveLog_traced_last:
  "type m \<noteq> accepts (dyn_class h) \<Longrightarrow> next_h h = None \<Longrightarrow>
   receiveLog_traced h m w = ((Inl unhandled, h, w), [h])"
  by (simp add: receiveLog_traced.simps handleLog_accepts)

lemma receiveLog_traced_forward:
  "type m \<noteq> accepts (dyn_class h) \<Longrightarrow> next_h h = Some n \<Longrightarrow>
   receiveLog_traced h m w =
     (case receiveLog_traced n m w of
        ((r, n', w'), entered) \<Rightarrow> ((r, LogHandler (dyn_class h) (Some n'), w'), h # entered))"
  by (simp add: receiveLog_traced.simps handleLog_accepts)

lemma receiveLog_traced_outcome: "fst (receiveLog_traced h m w) = receiveLog h m w"
proof (induction h rule: links.induct)
  case (1 c)
  show ?case
    by (cases "type m = accepts c")
       (simp_all add: receiveLog_traced_match receiveLog_match receiveLog_traced_last
          receiveLog_last split: prod.splits sum.splits)
next
  case (2 c n)
  show ?case
  proof (cases "type m = accepts c")
    case True
    then show ?thesis
      by (simp add: receiveLog_traced_match receiveLog_match split: prod.splits sum.splits)
  next
    case False
    obtain r n' w' entered where run: "receiveLog_traced n m w = ((r, n', w'), entered)"
      by (cases "receiveLog_traced n m w") auto
    then have "receiveLog n m w = (r, n', w')"
      using "2.IH" by simp
    with False run show ?thesis
      by (simp add: receiveLog_traced_forward receiveLog_forward)
  qed
qed

lemma visited_match: "type m = accepts (dyn_class h) \<Longrightarrow> visited h m w = [h]"
  by (simp add: visited_def receiveLog_traced_match split: prod.splits sum.splits)

lemma visited_last:
  "type m \<noteq> accepts (dyn_class h) \<Longrightarrow> next_h h = None \<Longrightarrow> visited h m w = [h]"
  by (simp add: visited_def receiveLog_traced_last)

lemma visited_forward:
  "type m \<noteq> accepts (dyn_class h) \<Longrightarrow> next_h h = Some n \<Longrightarrow>
   visited h m w = h # visited n m w"
  by (simp add: visited_def receiveLog_traced_forward split: prod.splits)

lemma severities_simps:
  "severities (LogHandler c None) = [accepts c]"
  "severities (LogHandler c (Some n)) = accepts c # severities n"
  by (simp_all add: severities_def)

lemma receiveLog_routes:
  "receiveLog h m w =
     (if type m \<in> set (severities h)
      then (case message m w of (Inl e, w') \<Rightarrow> (Inl e, h, w') | (Inr s, w') \<Rightarrow> (Inr (), h, w'))
      else (Inl unhandled, h, w))"
proof (induction h rule: links.induct)
  case (1 c)
  show ?case
    by (cases "type m = accepts c")
       (simp_all add: receiveLog_match receiveLog_last severities_simps)
next
  case (2 c n)
  show ?case
  proof (cases "type m = accepts c")
    case True
    then show ?thesis
      by (simp add: receiveLog_match severities_simps)
  next
    case False
    then have "receiveLog (LogHandler c (Some n)) m w =
                 (fst (receiveLog n m w), LogHandler c (Some n), snd (snd (receiveLog n m w)))"
      by (simp add: receiveLog_step)
    with False show ?thesis
      by (simp add: "2.IH" severities_simps split: prod.splits sum.splits)
  qed
qed

lemma visited_prefix: "prefix (visited h m w) (links h)"
proof (induction h rule: links.induct)
  case (1 c)
  show ?case
    by (cases "type m = accepts c") (simp_all add: visited_match visited_last)
next
  case (2 c n)
  then show ?case
    by (cases "type m = accepts c") (simp_all add: visited_match visited_forward)
qed

lemma try_block_this: "fst (snd (try_block h ms w)) = h"
proof (induction ms arbitrary: w)
  case Nil
  show ?case by simp
next
  case (Cons m ms)
  obtain r w' where run: "receiveLog h m w = (r, h, w')"
    using receiveLog_this [of h m w] by (cases "receiveLog h m w") auto
  show ?case
    using Cons.IH [of w'] run by (cases r) simp_all
qed

section \<open>The dispatch of one link\<close>

text \<open>
  C1. \<^verbatim>\<open>receiveLog\<close> is a three-way dispatch, for every link \<open>h\<close>, message \<open>m\<close> and
  world \<open>w\<close>. When \<open>type m\<close> is the severity the link accepts, the link runs
  \<open>message m\<close>: a thrown exception is passed on, a returned text ends the call normally
  (\<^verbatim>\<open>receiveLog\<close> returns \<^verbatim>\<open>void\<close>, so the text itself stays with the sink), and no
  successor is entered. Otherwise, with a successor \<open>n\<close>, the outcome and the world are
  those of \<open>receiveLog n\<close>; without one the call throws the exception whose text is
  \<^verbatim>\<open>Error: Log message should be handled!\<close> and leaves the world alone.
\<close>

theorem receiveLog_dispatch:
  "receiveLog h m w =
     (if type m = accepts (dyn_class h)
      then (case message m w of
              (Inl e, w') \<Rightarrow> (Inl e, h, w')
            | (Inr s, w') \<Rightarrow> (Inr (), h, w'))
      else (case next_h h of
              Some n \<Rightarrow> (fst (receiveLog n m w), h, snd (snd (receiveLog n m w)))
            | None \<Rightarrow> (Inl unhandled, h, w)))
   \<and> visited h m w =
     (if type m = accepts (dyn_class h) then [h]
      else (case next_h h of Some n \<Rightarrow> h # visited n m w | None \<Rightarrow> [h]))
   \<and> what unhandled = ''Error: Log message should be handled!''"
proof (intro conjI)
  show "receiveLog h m w =
     (if type m = accepts (dyn_class h)
      then (case message m w of
              (Inl e, w') \<Rightarrow> (Inl e, h, w')
            | (Inr s, w') \<Rightarrow> (Inr (), h, w'))
      else (case next_h h of
              Some n \<Rightarrow> (fst (receiveLog n m w), h, snd (snd (receiveLog n m w)))
            | None \<Rightarrow> (Inl unhandled, h, w)))"
  proof (cases "type m = accepts (dyn_class h)")
    case True
    then show ?thesis
      by (simp add: receiveLog_match)
  next
    case False
    then show ?thesis
      by (cases "next_h h") (simp_all add: receiveLog_last receiveLog_step)
  qed
next
  show "visited h m w =
     (if type m = accepts (dyn_class h) then [h]
      else (case next_h h of Some n \<Rightarrow> h # visited n m w | None \<Rightarrow> [h]))"
  proof (cases "type m = accepts (dyn_class h)")
    case True
    then show ?thesis
      by (simp add: visited_match)
  next
    case False
    then show ?thesis
      by (cases "next_h h") (simp_all add: visited_last visited_forward)
  qed
next
  show "what unhandled = ''Error: Log message should be handled!''"
    by (simp add: unhandled_def)
qed

section \<open>Routing through a whole chain\<close>

text \<open>
  C9. \<^verbatim>\<open>receiveLog\<close> terminates on every chain: it is a total function, defined by
  recursion on the chain with the size of the receiver as measure. A delegation goes to
  the successor \<open>n\<close>, whose chain is the tail of the receiver's and strictly shorter;
  the links entered form a prefix of the chain, so at most \<open>length (links h)\<close> calls
  run. The call ends in one of three ways: some link accepts the severity and
  \<open>message\<close> returned a text (normal return), some link accepts it and \<open>message\<close>
  threw (that exception leaves \<^verbatim>\<open>receiveLog\<close>), or no link accepts it and the
  unhandled-message exception is thrown with the world untouched.
\<close>

theorem receiveLog_terminates:
  "(next_h h = Some n \<longrightarrow> links h = h # links n \<and> length (links n) < length (links h))
   \<and> prefix (visited h m w) (links h)
   \<and> length (visited h m w) \<le> length (links h)
   \<and> (\<exists>r w'. receiveLog h m w = (r, h, w') \<and>
         ((r = Inr () \<and> type m \<in> set (severities h) \<and> (\<exists>s. message m w = (Inr s, w')))
          \<or> (\<exists>e. r = Inl e \<and> type m \<in> set (severities h) \<and> message m w = (Inl e, w'))
          \<or> (r = Inl unhandled \<and> type m \<notin> set (severities h) \<and> w' = w)))"
proof (intro conjI)
  show "next_h h = Some n \<longrightarrow> links h = h # links n \<and> length (links n) < length (links h)"
    by (cases h) auto
next
  show "prefix (visited h m w) (links h)"
    by (rule visited_prefix)
next
  show "length (visited h m w) \<le> length (links h)"
    using visited_prefix [of h m w] by (rule prefix_length_le)
next
  show "\<exists>r w'. receiveLog h m w = (r, h, w') \<and>
         ((r = Inr () \<and> type m \<in> set (severities h) \<and> (\<exists>s. message m w = (Inr s, w')))
          \<or> (\<exists>e. r = Inl e \<and> type m \<in> set (severities h) \<and> message m w = (Inl e, w'))
          \<or> (r = Inl unhandled \<and> type m \<notin> set (severities h) \<and> w' = w))"
  proof (cases "type m \<in> set (severities h)")
    case False
    then show ?thesis
      by (simp add: receiveLog_routes)
  next
    case True
    obtain r w' where emit: "message m w = (r, w')"
      by (cases "message m w") auto
    show ?thesis
      using True emit by (cases r) (simp_all add: receiveLog_routes)
  qed
qed

theorem receiveLog_terminates_witness:
  "next_h err_handler = Some warn_handler
   \<and> links err_handler = err_handler # links warn_handler
   \<and> length (links warn_handler) < length (links err_handler)
   \<and> length (visited err_handler FatalErrorLogMessage start_world) \<le> length (links err_handler)
   \<and> receiveLog err_handler FatalErrorLogMessage start_world
       = (Inl unhandled, err_handler, start_world)"
proof -
  have nxt: "next_h err_handler = Some warn_handler"
    by (simp add: err_handler_def)
  have sev: "type FatalErrorLogMessage \<notin> set (severities err_handler)"
    by (simp add: err_handler_def warn_handler_def severities_def)
  from receiveLog_terminates [of err_handler warn_handler FatalErrorLogMessage start_world]
  show ?thesis
    using nxt sev by auto
qed

text \<open>
  C10. Routing never modifies the chain. The receiver that \<^verbatim>\<open>receiveLog\<close> hands back is
  the receiver it was given, whatever the outcome (normal return, an exception from
  \<open>message\<close>, or the unhandled-message exception); so its links, their classes and
  their successors are as before. The same holds after any sequence of routing calls in
  the driver.
\<close>

theorem routing_preserves_chain:
  "fst (snd (receiveLog h m w)) = h
   \<and> links (fst (snd (receiveLog h m w))) = links h
   \<and> map dyn_class (links (fst (snd (receiveLog h m w)))) = map dyn_class (links h)
   \<and> map next_h (links (fst (snd (receiveLog h m w)))) = map next_h (links h)
   \<and> fst (snd (try_block h ms w)) = h
   \<and> fst (driver h ms w) = h"
proof -
  have "fst (driver h ms w) = fst (snd (try_block h ms w))"
    by (simp add: driver_def split: prod.splits sum.splits)
  then show ?thesis
    by (simp add: receiveLog_this try_block_this)
qed

text \<open>
  C7. When no link of the chain accepts the severity of the message, routing throws the
  unhandled-message exception, and the world after the call is the world before it: no
  stream, no file and no entry of the history of \<^verbatim>\<open>print\<close> calls has changed.
\<close>

theorem unmatched_severity_unhandled:
  "type m \<notin> set (severities h) \<Longrightarrow>
   receiveLog h m w = (Inl unhandled, h, w)
   \<and> what unhandled = ''Error: Log message should be handled!''
   \<and> print_calls (snd (snd (receiveLog h m w))) = print_calls w"
  by (simp add: receiveLog_routes unhandled_def)

theorem unmatched_severity_unhandled_witness:
  "type (ErrorLogMessage fl) \<notin> set (severities warn_handler)
   \<and> receiveLog warn_handler (ErrorLogMessage fl) start_world
       = (Inl unhandled, warn_handler, start_world)"
proof -
  have sev: "type (ErrorLogMessage fl) \<notin> set (severities warn_handler)"
    by (simp add: warn_handler_def severities_def)
  from unmatched_severity_unhandled [OF sev, of start_world] sev
  show ?thesis by simp
qed

text \<open>
  C6. \<open>message\<close> of a \<^verbatim>\<open>FatalErrorLogMessage\<close> always throws a \<^verbatim>\<open>std::runtime_error\<close>
  whose text is \<^verbatim>\<open>FatalError!\<close>, and \<open>message\<close> of an \<^verbatim>\<open>UnknownMessageLogMessage\<close>
  one whose text is \<^verbatim>\<open>UnknownMessage!\<close>; neither touches the world (no sink takes
  part). Routed through any chain with a link for the severity, wherever that link
  stands, the call throws exactly that exception and leaves the world alone.
\<close>

theorem fatal_messages_always_throw:
  "message FatalErrorLogMessage w = (Inl (runtime_error ''FatalError!''), w)
   \<and> what (runtime_error ''FatalError!'') = ''FatalError!''
   \<and> message UnknownMessageLogMessage w = (Inl (runtime_error ''UnknownMessage!''), w)
   \<and> what (runtime_error ''UnknownMessage!'') = ''UnknownMessage!''
   \<and> receiveLog h FatalErrorLogMessage w =
       (if tFatalError \<in> set (severities h)
        then (Inl (runtime_error ''FatalError!''), h, w) else (Inl unhandled, h, w))
   \<and> receiveLog h UnknownMessageLogMessage w =
       (if tUnknownMessage \<in> set (severities h)
        then (Inl (runtime_error ''UnknownMessage!''), h, w) else (Inl unhandled, h, w))"
  by (simp add: receiveLog_routes)

section \<open>What the sinks receive\<close>

lemma print_calls_print: "print_calls (print c s w) = print_calls w @ [(c, s)]"
proof (cases c)
  case (FileLog p f)
  then show ?thesis
    by (simp add: Let_def logged_def ofstream_open_def ofstream_put_def ofstream_is_open_def
             file_text_def split: option.splits)
next
  case (ConsoleLog p)
  then show ?thesis
    by (simp add: logged_def ostream_line_def)
qed

lemma main_chain_severities:
  "severities unknowmes_handler = [tUnknownMessage, tFatalError, tError, tWarning]"
  by (simp add: severities_def unknowmes_handler_def fatalerr_handler_def err_handler_def
           warn_handler_def)

text \<open>
  C5. \<open>message\<close> of a \<^verbatim>\<open>WarningLogMessage\<close> makes exactly one call of \<^verbatim>\<open>print\<close>, on its
  bound sink and with the text \<^verbatim>\<open>warning\<close>, and returns \<^verbatim>\<open>warning\<close>; routing the
  message through the chain of \<^verbatim>\<open>main\<close> (or any chain with a link for warnings) does
  just that and returns normally. The same holds for an \<^verbatim>\<open>ErrorLogMessage\<close> with the
  text \<^verbatim>\<open>Error\<close>. The history of \<^verbatim>\<open>print\<close> calls grows by that one entry.
\<close>

theorem warning_error_written_once:
  "message (WarningLogMessage c) w = (Inr ''warning'', print c ''warning'' w)
   \<and> message (ErrorLogMessage c) w = (Inr ''Error'', print c ''Error'' w)
   \<and> receiveLog unknowmes_handler (WarningLogMessage c) w
       = (Inr (), unknowmes_handler, print c ''warning'' w)
   \<and> receiveLog unknowmes_handler (ErrorLogMessage c) w
       = (Inr (), unknowmes_handler, print c ''Error'' w)
   \<and> print_calls (snd (snd (receiveLog unknowmes_handler (WarningLogMessage c) w)))
       = print_calls w @ [(c, ''warning'')]
   \<and> print_calls (snd (snd (receiveLog unknowmes_handler (ErrorLogMessage c) w)))
       = print_calls w @ [(c, ''Error'')]
   \<and> receiveLog h (WarningLogMessage c) w =
       (if tWarning \<in> set (severities h)
        then (Inr (), h, print c ''warning'' w) else (Inl unhandled, h, w))
   \<and> receiveLog h (ErrorLogMessage c) w =
       (if tError \<in> set (severities h)
        then (Inr (), h, print c ''Error'' w) else (Inl unhandled, h, w))"
  by (simp add: receiveLog_routes main_chain_severities print_calls_print)

section \<open>The chain of the driver\<close>

lemma main_chain_links:
  "links unknowmes_handler = [unknowmes_handler, fatalerr_handler, err_handler, warn_handler]"
  by (simp add: unknowmes_handler_def fatalerr_handler_def err_handler_def warn_handler_def)

lemma main_chain_classes:
  "dyn_class unknowmes_handler = UnknownMessageLogHandler"
  "dyn_class fatalerr_handler = FatalErrorLogHandler"
  "dyn_class err_handler = ErrorLogHandler"
  "dyn_class warn_handler = WarningLogHandler"
  by (simp_all add: unknowmes_handler_def fatalerr_handler_def err_handler_def warn_handler_def)

lemma main_chain_next:
  "next_h unknowmes_handler = Some fatalerr_handler"
  "next_h fatalerr_handler = Some err_handler"
  "next_h err_handler = Some warn_handler"
  "next_h warn_handler = None"
  by (simp_all add: unknowmes_handler_def fatalerr_handler_def err_handler_def warn_handler_def)

lemma main_chain_visited:
  "visited unknowmes_handler m w =
     (case type m of
        tWarning \<Rightarrow> [unknowmes_handler, fatalerr_handler, err_handler, warn_handler]
      | tError \<Rightarrow> [unknowmes_handler, fatalerr_handler, err_handler]
      | tFatalError \<Rightarrow> [unknowmes_handler, fatalerr_handler]
      | tUnknownMessage \<Rightarrow> [unknowmes_handler])"
  by (cases "type m")
     (simp_all add: visited_forward visited_match main_chain_classes main_chain_next)

lemma main_chain_distinct:
  "distinct [unknowmes_handler, fatalerr_handler, err_handler, warn_handler]"
  by (simp add: unknowmes_handler_def fatalerr_handler_def err_handler_def warn_handler_def)

lemma main_chain_traced:
  "receiveLog_traced unknowmes_handler m w =
     (receiveLog unknowmes_handler m w,
      (case type m of
         tWarning \<Rightarrow> [unknowmes_handler, fatalerr_handler, err_handler, warn_handler]
       | tError \<Rightarrow> [unknowmes_handler, fatalerr_handler, err_handler]
       | tFatalError \<Rightarrow> [unknowmes_handler, fatalerr_handler]
       | tUnknownMessage \<Rightarrow> [unknowmes_handler]))"
proof -
  have "receiveLog_traced unknowmes_handler m w
          = (fst (receiveLog_traced unknowmes_handler m w), visited unknowmes_handler m w)"
    by (simp add: visited_def)
  then show ?thesis
    by (simp only: receiveLog_traced_outcome main_chain_visited)
qed

text \<open>
  C4. In the chain of \<^verbatim>\<open>main\<close>, entered at its outermost link, a message of each of
  the four severities reaches the one link that accepts the severity and is consumed
  there. The run of \<^verbatim>\<open>receiveLog\<close> with its call history yields the outcome of
  \<open>receiveLog\<close> (for every chain, message and world) and, on the chain of \<^verbatim>\<open>main\<close>,
  the links entered: the chain up to the accepting link. That link is the only link of
  the chain, and the only one entered, that accepts the severity; every link entered
  before it declines (\<^verbatim>\<open>handleLog\<close> returns false and changes nothing), and the
  outcome of routing is that of \<^verbatim>\<open>handleLog\<close> at the accepting link, a single run of
  \<open>message\<close>. A warning is forwarded three times, an error twice, a fatal error once,
  an unknown message not at all.
\<close>

theorem full_chain_routes_each_severity:
  "fst (receiveLog_traced h m w) = receiveLog h m w
   \<and> snd (receiveLog_traced h m w) = visited h m w
   \<and> receiveLog_traced unknowmes_handler m w =
       (receiveLog unknowmes_handler m w,
        (case type m of
           tWarning \<Rightarrow> [unknowmes_handler, fatalerr_handler, err_handler, warn_handler]
         | tError \<Rightarrow> [unknowmes_handler, fatalerr_handler, err_handler]
         | tFatalError \<Rightarrow> [unknowmes_handler, fatalerr_handler]
         | tUnknownMessage \<Rightarrow> [unknowmes_handler]))
   \<and> visited unknowmes_handler m w =
     (case type m of
        tWarning \<Rightarrow> [unknowmes_handler, fatalerr_handler, err_handler, warn_handler]
      | tError \<Rightarrow> [unknowmes_handler, fatalerr_handler, err_handler]
      | tFatalError \<Rightarrow> [unknowmes_handler, fatalerr_handler]
      | tUnknownMessage \<Rightarrow> [unknowmes_handler])
   \<and> forwards unknowmes_handler m w =
     (case type m of tWarning \<Rightarrow> 3 | tError \<Rightarrow> 2 | tFatalError \<Rightarrow> 1 | tUnknownMessage \<Rightarrow> 0)
   \<and> filter (\<lambda>l. accepts (dyn_class l) = type m) (links unknowmes_handler)
       = [last (visited unknowmes_handler m w)]
   \<and> filter (\<lambda>l. accepts (dyn_class l) = type m) (visited unknowmes_handler m w)
       = [last (visited unknowmes_handler m w)]
   \<and> map (\<lambda>l. handleLog l m w) (butlast (visited unknowmes_handler m w))
       = map (\<lambda>l. (Inr False, l, w)) (butlast (visited unknowmes_handler m w))
   \<and> receiveLog unknowmes_handler m w =
       (case handleLog (last (visited unknowmes_handler m w)) m w of
          (Inl e, l, w') \<Rightarrow> (Inl e, unknowmes_handler, w')
        | (Inr b, l, w') \<Rightarrow> (Inr (), unknowmes_handler, w'))
   \<and> receiveLog unknowmes_handler m w =
       (case message m w of
          (Inl e, w') \<Rightarrow> (Inl e, unknowmes_handler, w')
        | (Inr s, w') \<Rightarrow> (Inr (), unknowmes_handler, w'))
   \<and> distinct (links unknowmes_handler)"
proof (intro conjI)
  show "fst (receiveLog_traced h m w) = receiveLog h m w"
    by (rule receiveLog_traced_outcome)
next
  show "snd (receiveLog_traced h m w) = visited h m w"
    by (simp add: visited_def)
next
  show "receiveLog_traced unknowmes_handler m w =
       (receiveLog unknowmes_handler m w,
        (case type m of
           tWarning \<Rightarrow> [unknowmes_handler, fatalerr_handler, err_handler, warn_handler]
         | tError \<Rightarrow> [unknowmes_handler, fatalerr_handler, err_handler]
         | tFatalError \<Rightarrow> [unknowmes_handler, fatalerr_handler]
         | tUnknownMessage \<Rightarrow> [unknowmes_handler]))"
    by (rule main_chain_traced)
next
  show "visited unknowmes_handler m w =
     (case type m of
        tWarning \<Rightarrow> [unknowmes_handler, fatalerr_handler, err_handler, warn_handler]
      | tError \<Rightarrow> [unknowmes_handler, fatalerr_handler, err_handler]
      | tFatalError \<Rightarrow> [unknowmes_handler, fatalerr_handler]
      | tUnknownMessage \<Rightarrow> [unknowmes_handler])"
    by (rule main_chain_visited)
next
  show "forwards unknowmes_handler m w =
     (case type m of tWarning \<Rightarrow> 3 | tError \<Rightarrow> 2 | tFatalError \<Rightarrow> 1 | tUnknownMessage \<Rightarrow> 0)"
    by (cases "type m") (simp_all add: forwards_def main_chain_visited)
next
  show "filter (\<lambda>l. accepts (dyn_class l) = type m) (links unknowmes_handler)
          = [last (visited unknowmes_handler m w)]"
    by (cases "type m") (simp_all add: main_chain_links main_chain_visited main_chain_classes)
next
  show "filter (\<lambda>l. accepts (dyn_class l) = type m) (visited unknowmes_handler m w)
          = [last (visited unknowmes_handler m w)]"
    by (cases "type m") (simp_all add: main_chain_visited main_chain_classes)
next
  show "map (\<lambda>l. handleLog l m w) (butlast (visited unknowmes_handler m w))
          = map (\<lambda>l. (Inr False, l, w)) (butlast (visited unknowmes_handler m w))"
    by (cases "type m")
       (simp_all add: main_chain_visited handleLog_accepts main_chain_classes)
next
  show "receiveLog unknowmes_handler m w =
       (case handleLog (last (visited unknowmes_handler m w)) m w of
          (Inl e, l, w') \<Rightarrow> (Inl e, unknowmes_handler, w')
        | (Inr b, l, w') \<Rightarrow> (Inr (), unknowmes_handler, w'))"
    by (cases "type m")
       (simp_all add: main_chain_visited handleLog_accepts main_chain_classes
          receiveLog_routes main_chain_severities split: prod.splits sum.splits)
next
  show "receiveLog unknowmes_handler m w =
       (case message m w of
          (Inl e, w') \<Rightarrow> (Inl e, unknowmes_handler, w')
        | (Inr s, w') \<Rightarrow> (Inr (), unknowmes_handler, w'))"
    by (cases "type m") (simp_all add: receiveLog_routes main_chain_severities)
next
  show "distinct (links unknowmes_handler)"
    by (simp only: main_chain_links main_chain_distinct)
qed

section \<open>A file sink whose file cannot be opened\<close>

lemma ofstream_open_fails_iff:
  "ofs_fail (ofstreams (ofstream_open f p w) f)
     \<longleftrightarrow> ofs_path (ofstreams w f) \<noteq> None \<or> \<not> can_open w p"
  by (auto simp: ofstream_open_def)

lemma print_open_failed:
  assumes "ofs_fail (ofstreams (ofstream_open f p w) f)"
  shows "print (FileLog p f) s w =
           logged (FileLog p f) s
             (w\<lparr>ofstreams := (ofstreams w)(f := (ofstreams w f)\<lparr>ofs_fail := True\<rparr>)\<rparr>)"
proof -
  have failed: "\<not> (ofs_path (ofstreams w f) = None \<and> can_open w p)"
    using assms by (simp add: ofstream_open_fails_iff)
  then have opened: "ofstream_open f p w =
      w\<lparr>ofstreams := (ofstreams w)(f := (ofstreams w f)\<lparr>ofs_fail := True\<rparr>)\<rparr>"
    unfolding ofstream_open_def by (simp only: if_False)
  show ?thesis
    by (simp add: opened Let_def ofstream_is_open_def ofstream_put_def)
qed

text \<open>
  C8. When \<^verbatim>\<open>f_ostream->open(file_path, std::ios::app)\<close> fails (the stream reports
  failure after the call: the path cannot be opened, or the stream is already open),
  \<^verbatim>\<open>FileLog::print\<close> returns without writing: no file and no plain stream changes, the
  only trace is the failure flag of the file stream. No exception arises: a message
  bound to that sink still returns its text, and routing it returns normally.
\<close>

theorem file_open_failure_absorbed:
  assumes "ofs_fail (ofstreams (ofstream_open f p w) f)"
  shows "files (print (FileLog p f) s w) = files w
   \<and> ostreams (print (FileLog p f) s w) = ostreams w
   \<and> can_open (print (FileLog p f) s w) = can_open w
   \<and> ofstreams (print (FileLog p f) s w) = (ofstreams w)(f := (ofstreams w f)\<lparr>ofs_fail := True\<rparr>)
   \<and> message (WarningLogMessage (FileLog p f)) w
       = (Inr ''warning'', print (FileLog p f) ''warning'' w)
   \<and> message (ErrorLogMessage (FileLog p f)) w
       = (Inr ''Error'', print (FileLog p f) ''Error'' w)
   \<and> fst (receiveLog unknowmes_handler (ErrorLogMessage (FileLog p f)) w) = Inr ()"
  using print_open_failed [OF assms, of s]
  by (simp add: logged_def receiveLog_routes main_chain_severities)

theorem file_open_failure_absorbed_witness:
  "ofs_fail (ofstreams (ofstream_open ofs ''file_path''
              (start_world\<lparr>can_open := (\<lambda>p. False)\<rparr>)) ofs)
   \<and> files (print (FileLog ''file_path'' ofs) ''Error'' (start_world\<lparr>can_open := (\<lambda>p. False)\<rparr>))
       = files (start_world\<lparr>can_open := (\<lambda>p. False)\<rparr>)
   \<and> files (print (FileLog ''file_path'' ofs) ''Error'' (start_world\<lparr>can_open := (\<lambda>p. False)\<rparr>))
        ''file_path'' = None
   \<and> fst (receiveLog unknowmes_handler (ErrorLogMessage (FileLog ''file_path'' ofs))
            (start_world\<lparr>can_open := (\<lambda>p. False)\<rparr>)) = Inr ()"
proof -
  have failed: "ofs_fail (ofstreams (ofstream_open ofs ''file_path''
                  (start_world\<lparr>can_open := (\<lambda>p. False)\<rparr>)) ofs)"
    by (simp add: ofstream_open_fails_iff start_world_def)
  have "files (start_world\<lparr>can_open := (\<lambda>p. False)\<rparr>) ''file_path'' = None"
    by (simp add: start_world_def)
  with file_open_failure_absorbed [OF failed, of "''Error''"] failed
  show ?thesis by simp
qed

section \<open>The run of the driver\<close>

lemma main_try_block:
  "try_block unknowmes_handler
     [WarningLogMessage cl, ErrorLogMessage fl, UnknownMessageLogMessage] w
   = (Inl (runtime_error ''UnknownMessage!''), unknowmes_handler,
      print fl ''Error'' (print cl ''warning'' w))"
  by (simp add: receiveLog_routes main_chain_severities)

lemma main_unfold:
  "main w =
     (0, destroy cl (destroy fl (ostream_line std_cout ''UnknownMessage!''
           (print fl ''Error'' (print cl ''warning'' (enter_main w))))))"
  unfolding main_def driver_def main_try_block by simp

lemma print_console_fields:
  "ostreams (print (ConsoleLog p) s w) = (ostreams w)(p := put_str endl (put_str s (ostreams w p)))"
  "ofstreams (print (ConsoleLog p) s w) = ofstreams w"
  "files (print (ConsoleLog p) s w) = files w"
  "can_open (print (ConsoleLog p) s w) = can_open w"
  by (simp_all add: logged_def ostream_line_def)

lemma print_file_frame:
  "ostreams (print (FileLog p f) s w) = ostreams w"
  "can_open (print (FileLog p f) s w) = can_open w"
  by (simp_all add: Let_def logged_def ofstream_open_def ofstream_is_open_def ofstream_put_def
                split: option.splits)

lemma print_file_opened:
  assumes "ofs_path (ofstreams w f) = None" and "can_open w p"
  shows "files (print (FileLog p f) s w) = (files w)(p := Some (file_text w p @ s @ endl))"
    and "ofstreams (print (FileLog p f) s w) = (ofstreams w)(f := \<lparr>ofs_path = Some p, ofs_fail = False\<rparr>)"
  using assms
  by (simp_all add: Let_def logged_def ofstream_open_def ofstream_is_open_def ofstream_put_def
                file_text_def)

lemma destroy_frame:
  "ostreams (destroy c w) = ostreams w"
  "files (destroy c w) = files w"
  "can_open (destroy c w) = can_open w"
  "print_calls (destroy c w) = print_calls w"
  by (cases c; simp add: ofstream_close_def split: option.splits)+

lemma ostream_line_fields:
  "ostreams (ostream_line p s w) = (ostreams w)(p := put_str endl (put_str s (ostreams w p)))"
  "ofstreams (ostream_line p s w) = ofstreams w"
  "files (ostream_line p s w) = files w"
  "can_open (ostream_line p s w) = can_open w"
  "print_calls (ostream_line p s w) = print_calls w"
  by (simp_all add: ostream_line_def)

lemma enter_main_fields:
  "ostreams (enter_main w) = ostreams w"
  "ofstreams (enter_main w) ofs = \<lparr>ofs_path = None, ofs_fail = False\<rparr>"
  "files (enter_main w) = files w"
  "can_open (enter_main w) = can_open w"
  "print_calls (enter_main w) = print_calls w"
  by (simp_all add: enter_main_def)

lemma put_line_good:
  "\<not> os_fail os \<Longrightarrow> put_str endl (put_str s os) = os\<lparr>written := written os @ s @ endl\<rparr>"
  by (simp add: put_str_def)

lemma main_print_calls:
  "print_calls (snd (main w)) = print_calls w @ [(cl, ''warning''), (fl, ''Error'')]"
  by (simp add: main_unfold destroy_frame ostream_line_fields print_calls_print
        enter_main_fields del: print.simps destroy.simps)

lemma main_cout:
  assumes "\<not> os_fail (ostreams w std_cout)"
  shows "written (ostreams (snd (main w)) std_cout)
           = written (ostreams w std_cout) @ ''warning'' @ endl @ ''UnknownMessage!'' @ endl"
  using assms
  by (simp add: main_unfold destroy_frame ostream_line_fields cl_def fl_def print_file_frame
        print_console_fields enter_main_fields put_line_good del: print.simps destroy.simps)

lemma main_files:
  assumes "can_open w ''file_path''"
  shows "files (snd (main w))
           = (files w)(''file_path'' := Some (file_text w ''file_path'' @ ''Error'' @ endl))"
proof -
  let ?w1 = "print cl ''warning'' (enter_main w)"
  have closed: "ofs_path (ofstreams ?w1 ofs) = None"
    by (simp add: cl_def print_console_fields enter_main_fields del: print.simps)
  have openable: "can_open ?w1 ''file_path''"
    using assms by (simp add: cl_def print_console_fields enter_main_fields del: print.simps)
  have same_text: "file_text ?w1 ''file_path'' = file_text w ''file_path''"
    by (simp add: file_text_def cl_def print_console_fields enter_main_fields del: print.simps)
  have same: "files ?w1 = files w"
    by (simp add: cl_def print_console_fields enter_main_fields del: print.simps)
  have "files (print fl ''Error'' ?w1)
          = (files w)(''file_path'' := Some (file_text w ''file_path'' @ ''Error'' @ endl))"
    unfolding fl_def
    by (simp add: print_file_opened(1) [OF closed openable] same_text same del: print.simps)
  then show ?thesis
    by (simp add: main_unfold destroy_frame ostream_line_fields del: print.simps destroy.simps)
qed

text \<open>
  C2. The run of \<^verbatim>\<open>main\<close>. The first two routing calls return normally and the third
  throws the exception with text \<^verbatim>\<open>UnknownMessage!\<close>; the \<^verbatim>\<open>catch\<close> clause prints that
  text on \<^verbatim>\<open>std::cout\<close>, and \<^verbatim>\<open>main\<close> returns 0. The console sink received exactly one
  \<^verbatim>\<open>print\<close> call, with \<^verbatim>\<open>warning\<close>, and the file sink exactly one, with \<^verbatim>\<open>Error\<close>.
  With \<^verbatim>\<open>std::cout\<close> good at the start, its output grows by the line \<^verbatim>\<open>warning\<close> and
  then the line \<^verbatim>\<open>UnknownMessage!\<close>; with \<^verbatim>\<open>file_path\<close> openable, that file grows
  by the line \<^verbatim>\<open>Error\<close> and no other file changes.
\<close>

theorem main_scenario:
  assumes "\<not> os_fail (ostreams w std_cout)" and "can_open w ''file_path''"
  shows "fst (main w) = 0
   \<and> receiveLog unknowmes_handler (WarningLogMessage cl) (enter_main w)
       = (Inr (), unknowmes_handler, print cl ''warning'' (enter_main w))
   \<and> receiveLog unknowmes_handler (ErrorLogMessage fl) (print cl ''warning'' (enter_main w))
       = (Inr (), unknowmes_handler, print fl ''Error'' (print cl ''warning'' (enter_main w)))
   \<and> receiveLog unknowmes_handler UnknownMessageLogMessage
         (print fl ''Error'' (print cl ''warning'' (enter_main w)))
       = (Inl (runtime_error ''UnknownMessage!''), unknowmes_handler,
          print fl ''Error'' (print cl ''warning'' (enter_main w)))
   \<and> snd (main w)
       = destroy cl (destroy fl (ostream_line std_cout ''UnknownMessage!''
           (print fl ''Error'' (print cl ''warning'' (enter_main w)))))
   \<and> print_calls (snd (main w)) = print_calls w @ [(cl, ''warning''), (fl, ''Error'')]
   \<and> written (ostreams (snd (main w)) std_cout)
       = written (ostreams w std_cout) @ ''warning'' @ endl @ ''UnknownMessage!'' @ endl
   \<and> files (snd (main w))
       = (files w)(''file_path'' := Some (file_text w ''file_path'' @ ''Error'' @ endl))"
proof (intro conjI)
  show "fst (main w) = 0"
    by (simp add: main_unfold)
next
  show "receiveLog unknowmes_handler (WarningLogMessage cl) (enter_main w)
       = (Inr (), unknowmes_handler, print cl ''warning'' (enter_main w))"
    by (simp add: receiveLog_routes main_chain_severities)
next
  show "receiveLog unknowmes_handler (ErrorLogMessage fl) (print cl ''warning'' (enter_main w))
       = (Inr (), unknowmes_handler, print fl ''Error'' (print cl ''warning'' (enter_main w)))"
    by (simp add: receiveLog_routes main_chain_severities)
next
  show "receiveLog unknowmes_handler UnknownMessageLogMessage
         (print fl ''Error'' (print cl ''warning'' (enter_main w)))
       = (Inl (runtime_error ''UnknownMessage!''), unknowmes_handler,
          print fl ''Error'' (print cl ''warning'' (enter_main w)))"
    by (simp add: receiveLog_routes main_chain_severities)
next
  show "snd (main w)
       = destroy cl (destroy fl (ostream_line std_cout ''UnknownMessage!''
           (print fl ''Error'' (print cl ''warning'' (enter_main w)))))"
    by (simp add: main_unfold)
next
  show "print_calls (snd (main w)) = print_calls w @ [(cl, ''warning''), (fl, ''Error'')]"
    by (rule main_print_calls)
next
  show "written (ostreams (snd (main w)) std_cout)
       = written (ostreams w std_cout) @ ''warning'' @ endl @ ''UnknownMessage!'' @ endl"
    using assms(1) by (rule main_cout)
next
  show "files (snd (main w))
       = (files w)(''file_path'' := Some (file_text w ''file_path'' @ ''Error'' @ endl))"
    using assms(2) by (rule main_files)
qed

theorem main_scenario_witness:
  "\<not> os_fail (ostreams start_world std_cout)
   \<and> can_open start_world ''file_path''
   \<and> main start_world
       = (0, destroy cl (destroy fl (ostream_line std_cout ''UnknownMessage!''
               (print fl ''Error'' (print cl ''warning'' (enter_main start_world))))))
   \<and> print_calls (snd (main start_world)) = [(cl, ''warning''), (fl, ''Error'')]
   \<and> written (ostreams (snd (main start_world)) std_cout)
       = ''warning'' @ endl @ ''UnknownMessage!'' @ endl
   \<and> files (snd (main start_world)) ''file_path'' = Some (''Error'' @ endl)
   \<and> files (snd (main start_world)) ''other_path'' = None"
proof -
  have good: "\<not> os_fail (ostreams start_world std_cout)"
    by (simp add: start_world_def)
  have openable: "can_open start_world ''file_path''"
    by (simp add: start_world_def)
  have start:
    "print_calls start_world = []"
    "written (ostreams start_world std_cout) = []"
    "file_text start_world ''file_path'' = []"
    "files start_world ''other_path'' = None"
    by (simp_all add: start_world_def file_text_def)
  from main_scenario [OF good openable] good openable start
  show ?thesis
    by (cases "main start_world") simp
qed

section \<open>Failures in the driver\<close>





end
